theory Spec2Isabelle
  imports
    Main
    "HOL-Library.Word"
    "HOL-Library.Product_Lexorder"
    "HOL-Library.Sublist"
begin

section \<open>The Spot catalog of main.go\<close>

text \<open>
  main.go is one \<^verbatim>\<open>main\<close> function that registers seven route handlers on a Gin engine.
  Every handler is a short sequence of GORM calls on one SQLite table of \<^verbatim>\<open>Spot\<close> rows.
  The embedding has three layers:
  \<^item> the data: the \<^verbatim>\<open>Spot\<close> struct and the table;
  \<^item> the storage calls the handlers make (\<^verbatim>\<open>Find\<close>, \<^verbatim>\<open>First\<close>, \<^verbatim>\<open>Create\<close>,
    \<^verbatim>\<open>Save\<close>, \<^verbatim>\<open>Updates\<close>, \<^verbatim>\<open>Delete\<close>), each as the SQL statement GORM issues for it;
  \<^item> the handlers, one definition per route, composed of these calls as the source
    composes them, returning the HTTP response and the table after the request.
  Storage failures (an unreachable file, a full disk, engine resource limits) are outside
  the model: every statement runs to completion.
\<close>

subsection \<open>Data\<close>

text \<open>
  \<^verbatim>\<open>type Spot struct { ID uint; Name, Description, Ticket, Transport string;
  RecommendCount int; ImageURL string }\<close>.
  \<^verbatim>\<open>RecommendCount\<close> is the only field the program computes with
  (\<^verbatim>\<open>spot.RecommendCount++\<close>). Go's \<^verbatim>\<open>int\<close> has 64 bits on the usual targets and
  wraps around on overflow, and SQLite stores a signed 64-bit integer, so the field is
  a 64-bit word read as two's complement (\<open>sint\<close>). \<^verbatim>\<open>ID\<close> is never computed with and
  is a natural number. A text is a list of characters.
\<close>

record Spot =
  ID :: nat
  Name :: string
  Description :: string
  Ticket :: string
  Transport :: string
  RecommendCount :: "64 word"
  ImageURL :: string

text \<open>
  The table \<^verbatim>\<open>spots\<close> of spots.db, and the counter SQLite keeps for an
  \<^verbatim>\<open>integer PRIMARY KEY AUTOINCREMENT\<close> column (the largest key ever given out), which is
  how the GORM SQLite driver declares a \<^verbatim>\<open>uint\<close> primary key.
\<close>

record database =
  spots :: "Spot list"
  sqlite_sequence :: nat

text \<open>What a handler sends back: \<^verbatim>\<open>c.HTML(http.StatusOK, "index.html", spots)\<close>,
  \<^verbatim>\<open>c.Redirect(http.StatusFound, "/")\<close> or \<^verbatim>\<open>c.String(http.StatusNotFound, ..., id)\<close>.\<close>

datatype response =
  HTML_OK "Spot list"
| Redirect_Found
| String_NotFound nat

text \<open>
  The primary key makes the stored ids pairwise different, and the keys SQLite gives
  out start at 1 and never exceed the counter.
\<close>

definition valid_db :: "database \<Rightarrow> bool" where
  "valid_db db \<longleftrightarrow>
     distinct (map ID (spots db)) \<and>
     (\<forall>s \<in> set (spots db). 0 < ID s \<and> ID s \<le> sqlite_sequence db)"

subsection \<open>Storage calls\<close>

text \<open>\<^verbatim>\<open>ORDER BY recommend_count desc, id asc\<close>: the sort key of a row.\<close>

definition order_key :: "Spot \<Rightarrow> int \<times> nat" where
  "order_key s = (- sint (RecommendCount s), ID s)"

text \<open>\<^verbatim>\<open>db.Order("recommend_count desc, id asc").Find(&spots)\<close>.\<close>

definition db_Order_Find :: "database \<Rightarrow> Spot list" where
  "db_Order_Find db = sort_key order_key (spots db)"

text \<open>\<^verbatim>\<open>db.Where(cond).Order("recommend_count desc, id asc").Find(&spots)\<close>:
  the rows that satisfy the condition, then ordered.\<close>

definition db_Where_Order_Find :: "(Spot \<Rightarrow> bool) \<Rightarrow> database \<Rightarrow> Spot list" where
  "db_Where_Order_Find cond db = sort_key order_key (filter cond (spots db))"

text \<open>\<^verbatim>\<open>db.First(&spot, id)\<close>: \<^verbatim>\<open>SELECT * FROM spots WHERE id = ? ORDER BY id LIMIT 1\<close>.
  \<open>None\<close> is \<^verbatim>\<open>ErrRecordNotFound\<close>. The path parameter is the key it denotes.\<close>

definition db_First :: "database \<Rightarrow> nat \<Rightarrow> Spot option" where
  "db_First db id' = find (\<lambda>s. ID s = id') (spots db)"

text \<open>The key \<^verbatim>\<open>AUTOINCREMENT\<close> gives to the next row: one more than the largest key
  ever present.\<close>

definition next_id :: "database \<Rightarrow> nat" where
  "next_id db = Suc (fold max (map ID (spots db)) (sqlite_sequence db))"

text \<open>\<^verbatim>\<open>db.Create(&spot)\<close>: an \<^verbatim>\<open>INSERT\<close>. A zero \<^verbatim>\<open>ID\<close> is left to SQLite; a given
  one is stored as it is, unless the key is taken (the statement then fails and the
  table stays as it was).\<close>

definition db_Create :: "database \<Rightarrow> Spot \<Rightarrow> database" where
  "db_Create db s =
     (if ID s = 0 then
        db\<lparr>spots := spots db @ [s\<lparr>ID := next_id db\<rparr>], sqlite_sequence := next_id db\<rparr>
      else if ID s \<in> set (map ID (spots db)) then db
      else db\<lparr>spots := spots db @ [s], sqlite_sequence := max (sqlite_sequence db) (ID s)\<rparr>)"

text \<open>\<^verbatim>\<open>db.Save(&spot)\<close>: with a zero key it is \<^verbatim>\<open>Create\<close>; otherwise
  \<^verbatim>\<open>UPDATE spots SET\<close> (every column) \<^verbatim>\<open>WHERE id = spot.ID\<close>, and an insert when the
  update touched no row.\<close>

definition db_Save :: "database \<Rightarrow> Spot \<Rightarrow> database" where
  "db_Save db s =
     (if ID s = 0 then db_Create db s
      else if ID s \<in> set (map ID (spots db)) then
        db\<lparr>spots := map (\<lambda>r. if ID r = ID s then s else r) (spots db)\<rparr>
      else db_Create db s)"

text \<open>\<^verbatim>\<open>db.Model(&spot).Updates(Spot{...})\<close>: \<^verbatim>\<open>UPDATE spots SET ... WHERE id = spot.ID\<close>
  with one assignment for each column whose field in the struct literal is not the
  zero value of its type; zero fields are skipped. (The literal of the one call in
  main.go leaves \<^verbatim>\<open>ID\<close> zero; the key column is never assigned.) A model with a zero
  key gives no \<^verbatim>\<open>WHERE\<close> clause, which GORM refuses.\<close>

definition nonzero_fields :: "Spot \<Rightarrow> Spot \<Rightarrow> Spot" where
  "nonzero_fields u r =
     r\<lparr>Name := (if Name u \<noteq> [] then Name u else Name r),
       Description := (if Description u \<noteq> [] then Description u else Description r),
       Ticket := (if Ticket u \<noteq> [] then Ticket u else Ticket r),
       Transport := (if Transport u \<noteq> [] then Transport u else Transport r),
       RecommendCount :=
         (if RecommendCount u \<noteq> 0 then RecommendCount u else RecommendCount r),
       ImageURL := (if ImageURL u \<noteq> [] then ImageURL u else ImageURL r)\<rparr>"

definition db_Updates :: "database \<Rightarrow> Spot \<Rightarrow> Spot \<Rightarrow> database" where
  "db_Updates db model u =
     (if ID model = 0 then db
      else db\<lparr>spots := map (\<lambda>r. if ID r = ID model then nonzero_fields u r else r) (spots db)\<rparr>)"

text \<open>\<^verbatim>\<open>db.Delete(&Spot{}, id)\<close>: \<^verbatim>\<open>DELETE FROM spots WHERE id = ?\<close>.\<close>

definition db_Delete :: "database \<Rightarrow> nat \<Rightarrow> database" where
  "db_Delete db id' = db\<lparr>spots := filter (\<lambda>r. ID r \<noteq> id') (spots db)\<rparr>"

text \<open>\<^verbatim>\<open>db.Where("id IN ?", ids).Delete(&Spot{})\<close>:
  \<^verbatim>\<open>DELETE FROM spots WHERE id IN (...)\<close>.\<close>

definition db_Where_IN_Delete :: "database \<Rightarrow> nat list \<Rightarrow> database" where
  "db_Where_IN_Delete db ids = db\<lparr>spots := filter (\<lambda>r. ID r \<notin> set ids) (spots db)\<rparr>"

subsection \<open>The \<^verbatim>\<open>LIKE\<close> operator\<close>

text \<open>
  SQLite's \<^verbatim>\<open>LIKE\<close>: in the pattern, \<^verbatim>\<open>%\<close> stands for any run of characters (also
  none), \<^verbatim>\<open>_\<close> for any one character, and every other character for itself, where
  the letters A to Z and a to z of ASCII are compared without regard to case (the
  engine's default; main.go opens the file with no option that changes it).
\<close>

definition ascii_lower :: "char \<Rightarrow> char" where
  "ascii_lower c =
     (if 65 \<le> (of_char c :: nat) \<and> (of_char c :: nat) \<le> 90
      then char_of ((of_char c :: nat) + 32) else c)"

fun like :: "string \<Rightarrow> string \<Rightarrow> bool" where
  "like [] [] = True"
| "like [] (c # cs) = False"
| "like (p # ps) [] = (p = CHR ''%'' \<and> like ps [])"
| "like (p # ps) (c # cs) =
     (if p = CHR ''%'' then like ps (c # cs) \<or> like (p # ps) cs
      else if p = CHR ''_'' then like ps cs
      else ascii_lower p = ascii_lower c \<and> like ps cs)"

subsection \<open>The route handlers\<close>

text \<open>\<^verbatim>\<open>r1.GET("/", ...)\<close>\<close>

definition get_index :: "database \<Rightarrow> response \<times> database" where
  "get_index db = (HTML_OK (db_Order_Find db), db)"

text \<open>\<^verbatim>\<open>r1.POST("/add", ...)\<close>; the five arguments are the form values, the empty
  text when the form has no such field.\<close>

definition post_add ::
  "database \<Rightarrow> string \<Rightarrow> string \<Rightarrow> string \<Rightarrow> string \<Rightarrow> string \<Rightarrow> response \<times> database" where
  "post_add db name description ticket transport imageURL =
     (Redirect_Found,
      db_Create db
        \<lparr>ID = 0, Name = name, Description = description, Ticket = ticket,
         Transport = transport, RecommendCount = 0, ImageURL = imageURL\<rparr>)"

text \<open>\<^verbatim>\<open>r1.POST("/recommend/:id", ...)\<close>\<close>

definition post_recommend :: "database \<Rightarrow> nat \<Rightarrow> response \<times> database" where
  "post_recommend db id' =
     (case db_First db id' of
        Some spot \<Rightarrow>
          (Redirect_Found, db_Save db (spot\<lparr>RecommendCount := RecommendCount spot + 1\<rparr>))
      | None \<Rightarrow> (Redirect_Found, db))"

text \<open>\<^verbatim>\<open>r1.POST("/delete/:id", ...)\<close>\<close>

definition post_delete :: "database \<Rightarrow> nat \<Rightarrow> response \<times> database" where
  "post_delete db id' = (Redirect_Found, db_Delete db id')"

text \<open>\<^verbatim>\<open>r1.POST("/update/:id", ...)\<close>\<close>

definition post_update ::
  "database \<Rightarrow> nat \<Rightarrow> string \<Rightarrow> string \<Rightarrow> string \<Rightarrow> string \<Rightarrow> string \<Rightarrow> response \<times> database"
  where
  "post_update db id' name description ticket transport imageURL =
     (case db_First db id' of
        None \<Rightarrow> (String_NotFound id', db)
      | Some spot \<Rightarrow>
          (Redirect_Found,
           db_Updates db spot
             \<lparr>ID = 0, Name = name, Description = description, Ticket = ticket,
              Transport = transport, RecommendCount = 0, ImageURL = imageURL\<rparr>))"

text \<open>\<^verbatim>\<open>r1.GET("/search", ...)\<close>\<close>

definition get_search :: "database \<Rightarrow> string \<Rightarrow> response \<times> database" where
  "get_search db query =
     (if query = [] then (HTML_OK (db_Order_Find db), db)
      else
        (HTML_OK
           (db_Where_Order_Find
              (\<lambda>s. like (''%'' @ query @ ''%'') (Name s) \<or>
                    like (''%'' @ query @ ''%'') (Description s)) db),
         db))"

text \<open>\<^verbatim>\<open>r1.POST("/batchdelete", ...)\<close>\<close>

definition post_batchdelete :: "database \<Rightarrow> nat list \<Rightarrow> response \<times> database" where
  "post_batchdelete db ids =
     (if length ids > 0 then (Redirect_Found, db_Where_IN_Delete db ids)
      else (Redirect_Found, db))"

text \<open>The requests the engine \<^verbatim>\<open>r1\<close> routes, and the dispatch to the handlers.\<close>

datatype request =
  GET_index
| POST_add string string string string string
| POST_recommend nat
| POST_delete nat
| POST_update nat string string string string string
| GET_search string
| POST_batchdelete "nat list"

fun serve :: "database \<Rightarrow> request \<Rightarrow> response \<times> database" where
  "serve db GET_index = get_index db"
| "serve db (POST_add n d t tr i) = post_add db n d t tr i"
| "serve db (POST_recommend id') = post_recommend db id'"
| "serve db (POST_delete id') = post_delete db id'"
| "serve db (POST_update id' n d t tr i) = post_update db id' n d t tr i"
| "serve db (GET_search q) = get_search db q"
| "serve db (POST_batchdelete ids) = post_batchdelete db ids"

text \<open>A run of requests, each served to its end before the next, from a given table.\<close>

fun serve_all :: "database \<Rightarrow> request list \<Rightarrow> database" where
  "serve_all db [] = db"
| "serve_all db (req # reqs) = serve_all (snd (serve db req)) reqs"

text \<open>The table right after \<^verbatim>\<open>db.AutoMigrate(&Spot{})\<close> on a new file.\<close>

definition migrated :: database where
  "migrated = \<lparr>spots = [], sqlite_sequence = 0\<rparr>"

subsection \<open>Substring search as the specification words it\<close>





subsection \<open>Requests that overlap\<close>

text \<open>
  Gin serves every request on a goroutine of its own, and the handler of
  \<^verbatim>\<open>/recommend/:id\<close> makes two storage calls with nothing that ties them together
  (no transaction, no lock): \<^verbatim>\<open>db.First\<close>, then, after the increment of the local
  copy, \<^verbatim>\<open>db.Save\<close>. A request in flight is therefore at one of three points: before
  its \<^verbatim>\<open>First\<close>, holding the row it read, or done. Each storage call is one step.
\<close>

datatype recommend_request =
  Begin nat
| Loaded Spot
| Finished

fun recommend_step :: "database \<Rightarrow> recommend_request \<Rightarrow> database \<times> recommend_request" where
  "recommend_step db (Begin id') =
     (case db_First db id' of
        Some spot \<Rightarrow> (db, Loaded spot)
      | None \<Rightarrow> (db, Finished))"
| "recommend_step db (Loaded spot) =
     (db_Save db (spot\<lparr>RecommendCount := RecommendCount spot + 1\<rparr>), Finished)"
| "recommend_step db Finished = (db, Finished)"

text \<open>A schedule names, step by step, the request that makes its next storage call.\<close>

fun interleave ::
  "nat list \<Rightarrow> database \<times> recommend_request list \<Rightarrow> database \<times> recommend_request list" where
  "interleave [] (db, rs) = (db, rs)"
| "interleave (k # ks) (db, rs) =
     (if k < length rs then
        interleave ks (fst (recommend_step db (rs ! k)), rs[k := snd (recommend_step db (rs ! k))])
      else interleave ks (db, rs))"

text \<open>\<open>n\<close> recommend requests for one id, each served to its end before the next.\<close>

primrec recommend_times :: "nat \<Rightarrow> database \<Rightarrow> nat \<Rightarrow> database" where
  "recommend_times 0 db id' = db"
| "recommend_times (Suc n) db id' = recommend_times n (snd (post_recommend db id')) id'"

subsection \<open>Vocabulary of the properties\<close>

text \<open>The order of every listing: by \<^verbatim>\<open>RecommendCount\<close> from high to low, rows with the
  same count by \<^verbatim>\<open>ID\<close> from low to high.\<close>

definition listing_order :: "Spot \<Rightarrow> Spot \<Rightarrow> bool" where
  "listing_order a b \<longleftrightarrow>
     sint (RecommendCount b) < sint (RecommendCount a) \<or>
     (RecommendCount a = RecommendCount b \<and> ID a \<le> ID b)"

text \<open>Two rows used in the examples below.\<close>

definition west_lake :: Spot where
  "west_lake =
     \<lparr>ID = 1, Name = ''West Lake'', Description = ''Hangzhou'', Ticket = ''free'',
      Transport = ''bus'', RecommendCount = 0, ImageURL = ''''\<rparr>"

definition huangshan :: Spot where
  "huangshan =
     \<lparr>ID = 2, Name = ''Huangshan'', Description = ''a mountain'', Ticket = ''230'',
      Transport = ''rail'', RecommendCount = 3, ImageURL = ''''\<rparr>"

definition seeded :: database where
  "seeded = \<lparr>spots = [west_lake, huangshan], sqlite_sequence = 2\<rparr>"


section \<open>Properties\<close>

subsection \<open>Listings are ordered\<close>

lemma listing_order_iff: "listing_order a b \<longleftrightarrow> order_key a \<le> order_key b"
  by (auto simp: listing_order_def order_key_def less_eq_prod_def
      intro: signed_word_eqI [where ?'a = int])

lemma sorted_wrt_sort_key_order: "sorted_wrt listing_order (sort_key order_key xs)"
proof -
  have "sorted (map order_key (sort_key order_key xs))"
    by (rule sorted_sort_key)
  then show ?thesis
    by (simp add: sorted_map listing_order_iff [abs_def])
qed

text \<open>
  C1. For every table, the rows that the index page and the search page render are
  in listing order: a row never comes before one with a larger recommendation count,
  and rows with equal counts come with ascending ids.
\<close>

theorem listing_sorted:
  "(\<exists>xs. get_index db = (HTML_OK xs, db) \<and> sorted_wrt listing_order xs) \<and>
   (\<exists>ys. get_search db q = (HTML_OK ys, db) \<and> sorted_wrt listing_order ys)"
  by (simp add: get_index_def get_search_def db_Order_Find_def db_Where_Order_Find_def
      sorted_wrt_sort_key_order)

theorem listing_sorted_witness:
  "get_index seeded = (HTML_OK [huangshan, west_lake], seeded) \<and>
   get_search seeded ''west'' = (HTML_OK [west_lake], seeded) \<and>
   sorted_wrt listing_order [huangshan, west_lake] \<and>
   sorted_wrt listing_order [west_lake]"
proof -
  have index: "get_index seeded = (HTML_OK [huangshan, west_lake], seeded)"
    by (simp add: get_index_def db_Order_Find_def seeded_def order_key_def
        west_lake_def huangshan_def)
  have search: "get_search seeded ''west'' = (HTML_OK [west_lake], seeded)"
    by code_simp
  from listing_sorted [of seeded "''west''"] index search
  show ?thesis by auto
qed

subsection \<open>Looking rows up after a statement\<close>

lemma db_First_SomeD: "db_First db i = Some s \<Longrightarrow> s \<in> set (spots db) \<and> ID s = i"
  by (auto simp: db_First_def find_Some_iff)

lemma db_First_None_iff: "db_First db i = None \<longleftrightarrow> i \<notin> set (map ID (spots db))"
  by (auto simp: db_First_def find_None_iff)

lemma fold_max_ge: "(a::nat) \<le> fold max xs a \<and> (\<forall>x \<in> set xs. x \<le> fold max xs a)"
proof (induction xs arbitrary: a)
  case Nil
  show ?case by simp
next
  case (Cons x xs)
  have "max x a \<le> fold max xs (max x a)" using Cons.IH by blast
  with Cons.IH [of "max x a"] show ?case by auto
qed

lemma next_id_fresh: "next_id db \<notin> set (map ID (spots db))"
proof
  assume "next_id db \<in> set (map ID (spots db))"
  then have "next_id db \<le> fold max (map ID (spots db)) (sqlite_sequence db)"
    using fold_max_ge by blast
  then show False by (simp add: next_id_def)
qed

lemma next_id_gt: "sqlite_sequence db < next_id db" "0 < next_id db"
  using fold_max_ge [of "sqlite_sequence db" "map ID (spots db)"]
  by (auto simp: next_id_def)

lemma next_id_gt_ids: "s \<in> set (spots db) \<Longrightarrow> ID s < next_id db"
  using fold_max_ge [of "sqlite_sequence db" "map ID (spots db)"]
  by (auto simp: next_id_def less_Suc_eq_le)

lemma map_unique_row:
  assumes "distinct (map ID xs)" "s \<in> set xs"
  shows "map (\<lambda>r. if ID r = ID s then f s else r) xs = map (\<lambda>r. if ID r = ID s then f r else r) xs"
proof (rule map_cong [OF refl])
  fix r assume "r \<in> set xs"
  with assms have "ID r = ID s \<Longrightarrow> r = s"
    by (meson distinct_map inj_onD)
  then show "(if ID r = ID s then f s else r) = (if ID r = ID s then f r else r)" by auto
qed

lemma post_recommend_found:
  assumes "valid_db db" "db_First db i = Some s"
  shows "post_recommend db i =
    (Redirect_Found,
     db\<lparr>spots := map (\<lambda>r. if ID r = i then r\<lparr>RecommendCount := RecommendCount r + 1\<rparr> else r) (spots db)\<rparr>)"
proof -
  from assms(2) have s: "s \<in> set (spots db)" "ID s = i" by (auto dest: db_First_SomeD)
  from assms(1) s have pos: "ID s \<noteq> 0" and d: "distinct (map ID (spots db))"
    by (auto simp: valid_db_def)
  from s have mem: "ID s \<in> set (map ID (spots db))" by auto
  show ?thesis
    using assms(2) pos mem s(2) map_unique_row [OF d s(1), of "\<lambda>r. r\<lparr>RecommendCount := RecommendCount r + 1\<rparr>"]
    by (simp add: post_recommend_def db_Save_def)
qed

lemma post_recommend_missing:
  "db_First db i = None \<Longrightarrow> post_recommend db i = (Redirect_Found, db)"
  by (simp add: post_recommend_def)

lemma find_map_row:
  "(\<And>r. ID (f r) = ID r) \<Longrightarrow>
   find (\<lambda>s. ID s = j) (map (\<lambda>r. if ID r = i then f r else r) xs) =
   (if j = i then map_option f (find (\<lambda>s. ID s = j) xs) else find (\<lambda>s. ID s = j) xs)"
  by (induction xs) auto

lemma db_First_map_row:
  "(\<And>r. ID (f r) = ID r) \<Longrightarrow>
   db_First (db\<lparr>spots := map (\<lambda>r. if ID r = i then f r else r) (spots db)\<rparr>) j =
   (if j = i then map_option f (db_First db j) else db_First db j)"
  by (simp add: db_First_def find_map_row)

lemma find_filter_row:
  "find (\<lambda>s. ID s = j) (filter (\<lambda>r. \<not> P (ID r)) xs) =
   (if P j then None else find (\<lambda>s. ID s = j) xs)"
  by (induction xs) (auto simp: find_None_iff)

lemma db_First_filter:
  "db_First (db\<lparr>spots := filter (\<lambda>r. \<not> P (ID r)) (spots db)\<rparr>) j =
   (if P j then None else db_First db j)"
  by (simp add: db_First_def find_filter_row)



subsection \<open>The counter as a signed number\<close>

lemma sint_succ:
  fixes w :: "64 word"
  assumes "sint w < 9223372036854775807"
  shows "sint (w + 1) = sint w + 1"
proof -
  have lo: "- (2 ^ 63) \<le> sint w" using sint_ge [of w] by simp
  have "sint (w + 1) = signed_take_bit 63 (sint w + 1)"
    by (simp add: sint_word_ariths)
  also have "\<dots> = sint w + 1"
    using lo assms by (intro signed_take_bit_int_eq_self) simp_all
  finally show ?thesis .
qed

lemma sint_add_nat:
  fixes w :: "64 word"
  assumes "sint w + int n \<le> 9223372036854775807"
  shows "sint (w + of_nat n) = sint w + int n"
  using assms
proof (induction n)
  case 0
  then show ?case by simp
next
  case (Suc n)
  then have a: "sint (w + of_nat n) = sint w + int n" by simp
  with Suc.prems have "sint (w + of_nat n) < 9223372036854775807" by simp
  from sint_succ [OF this] a show ?case by (simp add: ac_simps)
qed

subsection \<open>The example tables are well formed\<close>

lemma valid_seeded: "valid_db seeded"
  by (simp add: valid_db_def seeded_def west_lake_def huangshan_def)


subsection \<open>Recommending\<close>

text \<open>
  C10. When the id names a stored row, \<^verbatim>\<open>/recommend/:id\<close> changes nothing but the
  counter of that row: the row read back has the old \<^verbatim>\<open>ID\<close>, \<^verbatim>\<open>Name\<close>,
  \<^verbatim>\<open>Description\<close>, \<^verbatim>\<open>Ticket\<close>, \<^verbatim>\<open>Transport\<close> and \<^verbatim>\<open>ImageURL\<close> (it is the old
  row with the counter replaced), every other id reads back as before, no row is
  added or removed, and the key counter is as before.
\<close>

theorem recommend_frame:
  assumes "valid_db db" "db_First db i = Some s"
  shows "\<exists>db'. post_recommend db i = (Redirect_Found, db') \<and>
           db_First db' i = Some (s\<lparr>RecommendCount := RecommendCount s + 1\<rparr>) \<and>
           (\<forall>j. j \<noteq> i \<longrightarrow> db_First db' j = db_First db j) \<and>
           map ID (spots db') = map ID (spots db) \<and>
           sqlite_sequence db' = sqlite_sequence db"
proof -
  have keys: "map (ID \<circ> (\<lambda>r. if ID r = i then r\<lparr>RecommendCount := RecommendCount r + 1\<rparr> else r)) (spots db)
      = map ID (spots db)"
    by (rule map_cong) auto
  show ?thesis
    using assms(2) keys
    by (simp add: post_recommend_found [OF assms] db_First_map_row)
qed

theorem recommend_frame_witness:
  "valid_db seeded \<and> db_First seeded 1 = Some west_lake \<and>
   post_recommend seeded 1 =
     (Redirect_Found, seeded\<lparr>spots := [west_lake\<lparr>RecommendCount := 1\<rparr>, huangshan]\<rparr>) \<and>
   db_First (seeded\<lparr>spots := [west_lake\<lparr>RecommendCount := 1\<rparr>, huangshan]\<rparr>) 2 = Some huangshan"
proof -
  have v: "valid_db seeded" by (rule valid_seeded)
  have f: "db_First seeded 1 = Some west_lake"
    by (simp add: db_First_def seeded_def west_lake_def)
  have r: "post_recommend seeded 1 =
     (Redirect_Found, seeded\<lparr>spots := [west_lake\<lparr>RecommendCount := 1\<rparr>, huangshan]\<rparr>)"
    by (simp add: post_recommend_def db_First_def db_Save_def seeded_def west_lake_def huangshan_def)
  from recommend_frame [OF v f] r
  have "db_First (seeded\<lparr>spots := [west_lake\<lparr>RecommendCount := 1\<rparr>, huangshan]\<rparr>) 2 = db_First seeded 2"
    by auto
  then show ?thesis using v f r
    by (simp add: db_First_def seeded_def west_lake_def huangshan_def)
qed





subsection \<open>Updating\<close>

lemma post_update_found:
  assumes "valid_db db" "db_First db i = Some s"
  shows "post_update db i n d t tr im =
    (Redirect_Found,
     db\<lparr>spots := map (\<lambda>r. if ID r = i then
        r\<lparr>Name := (if n \<noteq> [] then n else Name r),
          Description := (if d \<noteq> [] then d else Description r),
          Ticket := (if t \<noteq> [] then t else Ticket r),
          Transport := (if tr \<noteq> [] then tr else Transport r),
          ImageURL := (if im \<noteq> [] then im else ImageURL r)\<rparr> else r) (spots db)\<rparr>)"
proof -
  from assms(2) have s: "s \<in> set (spots db)" "ID s = i" by (auto dest: db_First_SomeD)
  from assms(1) s have pos: "ID s \<noteq> 0" by (auto simp: valid_db_def)
  show ?thesis
    using assms(2) pos s(2)
    by (simp add: post_update_def db_Updates_def nonzero_fields_def)
qed

text \<open>
  C2. When the id names a stored row, \<^verbatim>\<open>/update/:id\<close> answers with the redirect and
  the row read back afterwards is the old row in which each of \<^verbatim>\<open>Name\<close>,
  \<^verbatim>\<open>Description\<close>, \<^verbatim>\<open>Ticket\<close>, \<^verbatim>\<open>Transport\<close> and \<^verbatim>\<open>ImageURL\<close> has the form value
  when that value is not empty, and its stored value when the form value is empty.
\<close>

theorem update_partial:
  assumes "valid_db db" "db_First db i = Some s"
  shows "\<exists>db'. post_update db i n d t tr im = (Redirect_Found, db') \<and>
           db_First db' i =
             Some (s\<lparr>Name := (if n \<noteq> [] then n else Name s),
                     Description := (if d \<noteq> [] then d else Description s),
                     Ticket := (if t \<noteq> [] then t else Ticket s),
                     Transport := (if tr \<noteq> [] then tr else Transport s),
                     ImageURL := (if im \<noteq> [] then im else ImageURL s)\<rparr>)"
  using assms(2)
  by (simp add: post_update_found [OF assms] db_First_map_row)

theorem update_partial_witness:
  "valid_db seeded \<and> db_First seeded 1 = Some west_lake \<and>
   (\<exists>db'. post_update seeded 1 ''X'' '''' '''' '''' '''' = (Redirect_Found, db') \<and>
      db_First db' 1 = Some (west_lake\<lparr>Name := ''X''\<rparr>))"
proof -
  have f: "db_First seeded 1 = Some west_lake"
    by (simp add: db_First_def seeded_def west_lake_def)
  from update_partial [OF valid_seeded f, of "''X''" "''''" "''''" "''''" "''''"] valid_seeded f
  show ?thesis by simp
qed



subsection \<open>Adding and deleting\<close>



text \<open>
  C7. \<^verbatim>\<open>/batchdelete\<close> always answers with the redirect; the rows left are exactly
  the rows whose id is not among the ids sent, each unchanged and in place. With no
  id sent, or none that names a row, the table is unchanged.
\<close>

theorem batchdelete_removes:
  "\<exists>db'. post_batchdelete db ids = (Redirect_Found, db') \<and>
     spots db' = filter (\<lambda>r. ID r \<notin> set ids) (spots db) \<and>
     sqlite_sequence db' = sqlite_sequence db \<and>
     (\<forall>j. db_First db' j = (if j \<in> set ids then None else db_First db j)) \<and>
     (set ids \<inter> set (map ID (spots db)) = {} \<longrightarrow> db' = db)"
proof (cases "ids = []")
  case True
  then show ?thesis by (simp add: post_batchdelete_def)
next
  case False
  have "set ids \<inter> ID ` set (spots db) = {} \<Longrightarrow> filter (\<lambda>r. ID r \<notin> set ids) (spots db) = spots db"
    by (auto simp: filter_id_conv)
  with False show ?thesis
    using db_First_filter [where db = db and P = "\<lambda>j. j \<in> set ids"]
    by (auto simp: post_batchdelete_def db_Where_IN_Delete_def)
qed

theorem batchdelete_removes_witness:
  "post_batchdelete seeded [2, 9] = (Redirect_Found, \<lparr>spots = [west_lake], sqlite_sequence = 2\<rparr>) \<and>
   post_batchdelete seeded [] = (Redirect_Found, seeded) \<and>
   post_batchdelete seeded [9] = (Redirect_Found, seeded)"
proof -
  have 1: "filter (\<lambda>r. ID r \<notin> set [2, 9]) (spots seeded) = [west_lake]"
    by (simp add: seeded_def west_lake_def huangshan_def)
  have 2: "set [9] \<inter> set (map ID (spots seeded)) = {}"
    by (simp add: seeded_def west_lake_def huangshan_def)
  from batchdelete_removes [of seeded "[2, 9]"] batchdelete_removes [of seeded "[]"]
    batchdelete_removes [of seeded "[9]"] 1 2
  show ?thesis by (auto simp: seeded_def)
qed

subsection \<open>Well-formed tables stay well formed\<close>

lemma db_Create_zero_valid:
  assumes "valid_db db" "ID s = 0"
  shows "valid_db (db_Create db s)"
proof -
  have "\<forall>r \<in> set (spots db). ID r < next_id db" by (simp add: next_id_gt_ids)
  moreover have "\<forall>r \<in> set (spots db). 0 < ID r" using assms(1) by (simp add: valid_db_def)
  ultimately show ?thesis
    using assms next_id_fresh [of db] next_id_gt(2) [of db]
    by (auto simp: valid_db_def db_Create_def less_imp_le)
qed

lemma map_row_valid:
  assumes "valid_db db" "\<And>r. ID (f r) = ID r"
  shows "valid_db (db\<lparr>spots := map (\<lambda>r. if ID r = i then f r else r) (spots db)\<rparr>)"
proof -
  have keys: "map (ID \<circ> (\<lambda>r. if ID r = i then f r else r)) (spots db) = map ID (spots db)"
    by (rule map_cong) (auto simp: assms(2))
  show ?thesis using assms(1) by (auto simp: valid_db_def keys assms(2))
qed

lemma filter_valid:
  "valid_db db \<Longrightarrow> valid_db (db\<lparr>spots := filter P (spots db)\<rparr>)"
  by (auto simp: valid_db_def distinct_map_filter)

lemma serve_valid:
  assumes "valid_db db"
  shows "valid_db (snd (serve db req))"
proof (cases req)
  case GET_index
  then show ?thesis using assms by (simp add: get_index_def)
next
  case (POST_add n d t tr im)
  then show ?thesis using assms by (simp add: post_add_def db_Create_zero_valid)
next
  case (POST_recommend i)
  show ?thesis
  proof (cases "db_First db i")
    case None
    then show ?thesis using assms POST_recommend by (simp add: post_recommend_missing)
  next
    case (Some s)
    then show ?thesis using POST_recommend
      by (simp add: post_recommend_found [OF assms Some] map_row_valid [OF assms])
  qed
next
  case (POST_delete i)
  then show ?thesis using assms by (simp add: post_delete_def db_Delete_def filter_valid)
next
  case (POST_update i n d t tr im)
  show ?thesis
  proof (cases "db_First db i")
    case None
    then show ?thesis using assms POST_update by (simp add: post_update_def)
  next
    case (Some s)
    then show ?thesis using POST_update
      by (simp add: post_update_found [OF assms Some] map_row_valid [OF assms])
  qed
next
  case (GET_search q)
  then show ?thesis using assms by (simp add: get_search_def)
next
  case (POST_batchdelete ids)
  then show ?thesis using assms
    by (simp add: post_batchdelete_def db_Where_IN_Delete_def filter_valid)
qed

lemma valid_migrated: "valid_db migrated"
  by (simp add: valid_db_def migrated_def)

lemma serve_all_valid: "valid_db db \<Longrightarrow> valid_db (serve_all db reqs)"
  by (induction reqs arbitrary: db) (simp_all add: serve_valid)

lemma reachable_valid: "valid_db (serve_all migrated reqs)"
  by (rule serve_all_valid [OF valid_migrated])

subsection \<open>The counter over the life of a row\<close>




subsection \<open>Searching\<close>











subsection \<open>Recommending many times\<close>

text \<open>A request that makes its two storage calls with no other request in between
  does what the handler does.\<close>

lemma recommend_alone:
  "interleave [0, 0] (db, [Begin i]) = (snd (post_recommend db i), [Finished])"
  by (simp add: post_recommend_def split: option.splits)

lemma recommend_times_found:
  assumes "valid_db db" "db_First db i = Some s"
  shows "valid_db (recommend_times n db i) \<and>
     db_First (recommend_times n db i) i =
       Some (s\<lparr>RecommendCount := RecommendCount s + of_nat n\<rparr>)"
  using assms
proof (induction n arbitrary: db s)
  case 0
  then show ?case by simp
next
  case (Suc n)
  let ?db = "snd (post_recommend db i)"
  let ?s = "s\<lparr>RecommendCount := RecommendCount s + 1\<rparr>"
  have v: "valid_db ?db" using serve_valid [OF Suc.prems(1), of "POST_recommend i"] by simp
  have f: "db_First ?db i = Some ?s"
    using Suc.prems(2)
    by (simp add: post_recommend_found [OF Suc.prems] db_First_map_row)
  have w: "RecommendCount s + 1 + of_nat n = RecommendCount s + of_nat (Suc n)"
    by simp
  have e: "?s\<lparr>RecommendCount := RecommendCount ?s + of_nat n\<rparr> =
      s\<lparr>RecommendCount := RecommendCount s + of_nat (Suc n)\<rparr>"
    using w by simp
  from Suc.IH [OF v f] have "valid_db (recommend_times n ?db i) \<and>
     db_First (recommend_times n ?db i) i =
       Some (s\<lparr>RecommendCount := RecommendCount s + of_nat (Suc n)\<rparr>)"
    unfolding e .
  then show ?case by simp
qed

text \<open>
  C8 as the code has it. \<open>n\<close> recommend requests for an id that names a row, each
  served to its end before the next begins, raise the counter of the row by exactly
  \<open>n\<close> (as long as that stays within the 64-bit counter).
\<close>

theorem recommend_sequential:
  assumes "valid_db db" "db_First db i = Some s"
    and "sint (RecommendCount s) + int n \<le> 9223372036854775807"
  shows "\<exists>s'. db_First (recommend_times n db i) i = Some s' \<and>
           sint (RecommendCount s') = sint (RecommendCount s) + int n"
  using recommend_times_found [OF assms(1,2), of n] sint_add_nat [OF assms(3)]
  by simp

theorem recommend_sequential_witness:
  "valid_db seeded \<and> db_First seeded 2 = Some huangshan \<and>
   sint (RecommendCount huangshan) + int 100 \<le> 9223372036854775807 \<and>
   (\<exists>s'. db_First (recommend_times 100 seeded 2) 2 = Some s' \<and> sint (RecommendCount s') = 103)"
proof -
  have f: "db_First seeded 2 = Some huangshan"
    by (simp add: db_First_def seeded_def west_lake_def huangshan_def)
  have c: "sint (RecommendCount huangshan) = 3" by (simp add: huangshan_def)
  have b: "sint (RecommendCount huangshan) + int 100 \<le> 9223372036854775807"
    unfolding c by simp
  from recommend_sequential [OF valid_seeded f b]
  have "\<exists>s'. db_First (recommend_times 100 seeded 2) 2 = Some s' \<and> sint (RecommendCount s') = 103"
    unfolding c by simp
  with valid_seeded f b show ?thesis by blast
qed

text \<open>
  C8 as stated fails for requests that overlap: two requests for id 1 that both read
  the row before either saves it both save the counter 1, so one recommendation is
  lost.
\<close>

theorem recommend_lost_update:
  "snd (interleave [0, 1, 0, 1] (seeded, [Begin 1, Begin 1])) = [Finished, Finished] \<and>
   map_option (sint \<circ> RecommendCount) (db_First seeded 1) = Some 0 \<and>
   map_option (sint \<circ> RecommendCount)
     (db_First (fst (interleave [0, 1, 0, 1] (seeded, [Begin 1, Begin 1]))) 1) = Some 1"
  by (simp add: db_First_def db_Save_def seeded_def west_lake_def huangshan_def)

end
